theory Spec2Isabelle
  imports Complex_Main "HOL-Library.Log_Nat"
begin

section \<open>The ledger store: tables of the migration\<close>

text \<open>
  The five ledger tables of the migration
  \<^verbatim>\<open>supabase/migrations/20250729071003-...sql\<close>, one record per table row.
  A \<^verbatim>\<open>UUID\<close> is a natural number. A \<^verbatim>\<open>DECIMAL(10,2)\<close> amount is the integer number
  of hundredths (minor units), so \<^verbatim>\<open>100.00\<close> is \<open>10000\<close>; the declared precision
  bounds its absolute value below \<open>10 ^ 10\<close> hundredths. The timestamp columns
  (\<^verbatim>\<open>created_at\<close>, \<^verbatim>\<open>updated_at\<close>, \<^verbatim>\<open>joined_at\<close>, \<^verbatim>\<open>date\<close>) and the tables
  \<^verbatim>\<open>auth.users\<close> and \<^verbatim>\<open>profiles\<close> play no part in what follows and are left out:
  every user id is taken to exist in \<^verbatim>\<open>auth.users\<close>.
\<close>

type_synonym uuid = nat
type_synonym decimal_10_2 = int

record apartment =
  a_id :: uuid
  a_name :: string
  a_code :: string
  a_created_by :: uuid

record apartment_member =
  m_id :: uuid
  m_apartment_id :: uuid
  m_user_id :: uuid

record expense =
  e_id :: uuid
  e_apartment_id :: uuid
  e_title :: string
  e_amount :: decimal_10_2
  e_paid_by :: uuid
  e_created_by :: uuid

record expense_split =
  sp_id :: uuid
  sp_expense_id :: uuid
  sp_user_id :: uuid
  sp_amount :: decimal_10_2

record settlement =
  st_id :: uuid
  st_apartment_id :: uuid
  st_from_user :: uuid
  st_to_user :: uuid
  st_amount :: decimal_10_2
  st_note :: "string option"

record store =
  apartments :: "apartment list"
  apartment_members :: "apartment_member list"
  expenses :: "expense list"
  expense_splits :: "expense_split list"
  settlements :: "settlement list"

definition empty_store :: store where
  "empty_store = \<lparr>apartments = [], apartment_members = [], expenses = [],
     expense_splits = [], settlements = []\<rparr>"

subsection \<open>Declared constraints\<close>

text \<open>
  The constraints the \<^verbatim>\<open>CREATE TABLE\<close> statements declare: primary keys,
  \<^verbatim>\<open>UNIQUE\<close>, \<^verbatim>\<open>CHECK\<close>, the numeric precision and the foreign keys between the
  five tables. A statement whose result breaks one of them fails as a whole.
\<close>

definition in_precision :: "decimal_10_2 \<Rightarrow> bool" where
  "in_precision v = (\<bar>v\<bar> < 10 ^ 10)"

definition constraints_ok :: "store \<Rightarrow> bool" where
  "constraints_ok s =
    (distinct (map a_id (apartments s)) \<and>
     distinct (map a_code (apartments s)) \<and>
     distinct (map m_id (apartment_members s)) \<and>
     distinct (map (\<lambda>m. (m_apartment_id m, m_user_id m)) (apartment_members s)) \<and>
     list_all (\<lambda>m. m_apartment_id m \<in> set (map a_id (apartments s))) (apartment_members s) \<and>
     distinct (map e_id (expenses s)) \<and>
     list_all (\<lambda>e. 0 < e_amount e \<and> in_precision (e_amount e)) (expenses s) \<and>
     list_all (\<lambda>e. e_apartment_id e \<in> set (map a_id (apartments s))) (expenses s) \<and>
     distinct (map sp_id (expense_splits s)) \<and>
     distinct (map (\<lambda>p. (sp_expense_id p, sp_user_id p)) (expense_splits s)) \<and>
     list_all (\<lambda>p. 0 \<le> sp_amount p \<and> in_precision (sp_amount p)) (expense_splits s) \<and>
     list_all (\<lambda>p. sp_expense_id p \<in> set (map e_id (expenses s))) (expense_splits s) \<and>
     distinct (map st_id (settlements s)) \<and>
     list_all (\<lambda>t. 0 < st_amount t \<and> in_precision (st_amount t)) (settlements s) \<and>
     list_all (\<lambda>t. st_apartment_id t \<in> set (map a_id (apartments s))) (settlements s))"

subsection \<open>Row-level security policies\<close>

text \<open>
  Row-level security is enabled on every table, so a client statement touches only the
  rows some policy for its command admits. The caller is \<^verbatim>\<open>auth.uid()\<close>: \<open>None\<close> for
  an unauthenticated request, in which case every comparison with it is not true.

  The policy subquery
  \<^verbatim>\<open>SELECT apartment_id FROM public.apartment_members WHERE user_id = auth.uid()\<close>
  is \<open>my_apartments\<close>. The definitions of this subsection are the policy conditions
  as written, evaluated over the stored rows. The \<^verbatim>\<open>SELECT\<close> policy of
  \<^verbatim>\<open>apartment_members\<close> reads \<^verbatim>\<open>apartment_members\<close> itself, and PostgreSQL rejects
  a statement that has to expand such a policy (error 42P17, infinite recursion detected
  in policy). That rejection is modelled further below, for the queries of the client;
  the conditions here say which rows and statements the policies would admit at most.
\<close>

definition my_apartments :: "uuid option \<Rightarrow> store \<Rightarrow> uuid list" where
  "my_apartments caller s =
     map m_apartment_id (filter (\<lambda>m. caller = Some (m_user_id m)) (apartment_members s))"

text \<open>"Users can view apartments they are members of"\<close>
definition select_apartments :: "uuid option \<Rightarrow> store \<Rightarrow> apartment list" where
  "select_apartments caller s =
     filter (\<lambda>a. a_id a \<in> set (my_apartments caller s)) (apartments s)"

text \<open>"Users can view members of their apartments"\<close>
definition select_apartment_members :: "uuid option \<Rightarrow> store \<Rightarrow> apartment_member list" where
  "select_apartment_members caller s =
     filter (\<lambda>m. m_apartment_id m \<in> set (my_apartments caller s)) (apartment_members s)"

text \<open>"Users can view expenses in their apartments"\<close>
definition select_expenses :: "uuid option \<Rightarrow> store \<Rightarrow> expense list" where
  "select_expenses caller s =
     filter (\<lambda>e. e_apartment_id e \<in> set (my_apartments caller s)) (expenses s)"

text \<open>"Users can view settlements in their apartments"\<close>
definition select_settlements :: "uuid option \<Rightarrow> store \<Rightarrow> settlement list" where
  "select_settlements caller s =
     filter (\<lambda>t. st_apartment_id t \<in> set (my_apartments caller s)) (settlements s)"

text \<open>"Users can create apartments"; "Apartment creators can update their apartments"\<close>
definition apartment_creator :: "uuid option \<Rightarrow> apartment \<Rightarrow> bool" where
  "apartment_creator caller a = (caller = Some (a_created_by a))"

text \<open>"Users can join apartments"; "Users can leave apartments"\<close>
definition member_self :: "uuid option \<Rightarrow> apartment_member \<Rightarrow> bool" where
  "member_self caller m = (caller = Some (m_user_id m))"

text \<open>"Apartment members can create expenses"\<close>
definition expense_insert_check :: "uuid option \<Rightarrow> store \<Rightarrow> expense \<Rightarrow> bool" where
  "expense_insert_check caller s e =
     (caller = Some (e_created_by e) \<and> e_apartment_id e \<in> set (my_apartments caller s))"

text \<open>"Expense creators can update their expenses"; "... can delete their expenses"\<close>
definition expense_creator :: "uuid option \<Rightarrow> expense \<Rightarrow> bool" where
  "expense_creator caller e = (caller = Some (e_created_by e))"

text \<open>
  "Users can manage splits for their created expenses" (\<^verbatim>\<open>FOR ALL\<close>): its subquery
  reads \<^verbatim>\<open>expenses\<close> through that table's own \<^verbatim>\<open>SELECT\<close> policy.
\<close>
definition split_manage :: "uuid option \<Rightarrow> store \<Rightarrow> expense_split \<Rightarrow> bool" where
  "split_manage caller s p =
     (sp_expense_id p \<in>
        set (map e_id (filter (\<lambda>e. caller = Some (e_created_by e)) (select_expenses caller s))))"

text \<open>"Users can create settlements in their apartments"\<close>
definition settlement_insert_check :: "uuid option \<Rightarrow> store \<Rightarrow> settlement \<Rightarrow> bool" where
  "settlement_insert_check caller s t =
     (caller = Some (st_from_user t) \<and> st_apartment_id t \<in> set (my_apartments caller s))"

subsection \<open>Client statements\<close>

text \<open>
  What a client can send for the five tables: an \<^verbatim>\<open>INSERT\<close> of one row, an
  \<^verbatim>\<open>UPDATE\<close> (a row filter and the new values as a function of the old row) and a
  \<^verbatim>\<open>DELETE\<close> (a row filter).

  \<^item> \<^verbatim>\<open>INSERT\<close>: the new row must pass the \<^verbatim>\<open>WITH CHECK\<close> of an \<^verbatim>\<open>INSERT\<close> (or
    \<^verbatim>\<open>ALL\<close>) policy, else the statement fails.
  \<^item> \<^verbatim>\<open>UPDATE\<close>, \<^verbatim>\<open>DELETE\<close>: only rows passing the \<^verbatim>\<open>USING\<close> of a policy for the
    command are touched; with no such policy no row is, and the statement succeeds
    having done nothing. An updated row must pass the policy's check again (which
    defaults to its \<^verbatim>\<open>USING\<close> expression), else the statement fails.
  \<^item> \<^verbatim>\<open>ON DELETE CASCADE\<close> removes the rows that reference a deleted row.
  \<^item> The statement fails when the result breaks a declared constraint.

  \<open>exec\<close> admits every statement the database admits, and possibly more: the
  \<^verbatim>\<open>SELECT\<close> policy that the database applies in addition to the rows an
  \<^verbatim>\<open>UPDATE\<close> or \<^verbatim>\<open>DELETE\<close> with a filter reads is not applied, and a statement
  whose policy the database rejects as recursive is judged by the policy condition as
  written. What no statement of \<open>exec\<close> can do, no client statement can do.
\<close>

datatype db_error = Rls_violation | Constraint_violation

datatype request =
    Insert_apartment apartment
  | Update_apartment "apartment \<Rightarrow> bool" "apartment \<Rightarrow> apartment"
  | Delete_apartment "apartment \<Rightarrow> bool"
  | Insert_member apartment_member
  | Update_member "apartment_member \<Rightarrow> bool" "apartment_member \<Rightarrow> apartment_member"
  | Delete_member "apartment_member \<Rightarrow> bool"
  | Insert_expense expense
  | Update_expense "expense \<Rightarrow> bool" "expense \<Rightarrow> expense"
  | Delete_expense "expense \<Rightarrow> bool"
  | Insert_split expense_split
  | Update_split "expense_split \<Rightarrow> bool" "expense_split \<Rightarrow> expense_split"
  | Delete_split "expense_split \<Rightarrow> bool"
  | Insert_settlement settlement
  | Update_settlement "settlement \<Rightarrow> bool" "settlement \<Rightarrow> settlement"
  | Delete_settlement "settlement \<Rightarrow> bool"

definition checked :: "store \<Rightarrow> db_error + store" where
  "checked s = (if constraints_ok s then Inr s else Inl Constraint_violation)"

definition update_rows :: "('r \<Rightarrow> bool) \<Rightarrow> ('r \<Rightarrow> 'r) \<Rightarrow> 'r list \<Rightarrow> 'r list" where
  "update_rows touched f rows = map (\<lambda>r. if touched r then f r else r) rows"

fun exec :: "uuid option \<Rightarrow> request \<Rightarrow> store \<Rightarrow> db_error + store" where
  "exec caller (Insert_apartment a) s =
     (if apartment_creator caller a
      then checked (s\<lparr>apartments := apartments s @ [a]\<rparr>)
      else Inl Rls_violation)"
| "exec caller (Update_apartment P f) s =
     (let touched = (\<lambda>a. P a \<and> apartment_creator caller a) in
      if list_all (\<lambda>a. touched a \<longrightarrow> apartment_creator caller (f a)) (apartments s)
      then checked (s\<lparr>apartments := update_rows touched f (apartments s)\<rparr>)
      else Inl Rls_violation)"
| "exec caller (Delete_apartment P) s = Inr s"
| "exec caller (Insert_member m) s =
     (if member_self caller m
      then checked (s\<lparr>apartment_members := apartment_members s @ [m]\<rparr>)
      else Inl Rls_violation)"
| "exec caller (Update_member P f) s = Inr s"
| "exec caller (Delete_member P) s =
     Inr (s\<lparr>apartment_members :=
            filter (\<lambda>m. \<not> (P m \<and> member_self caller m)) (apartment_members s)\<rparr>)"
| "exec caller (Insert_expense e) s =
     (if expense_insert_check caller s e
      then checked (s\<lparr>expenses := expenses s @ [e]\<rparr>)
      else Inl Rls_violation)"
| "exec caller (Update_expense P f) s =
     (let touched = (\<lambda>e. P e \<and> expense_creator caller e) in
      if list_all (\<lambda>e. touched e \<longrightarrow> expense_creator caller (f e)) (expenses s)
      then checked (s\<lparr>expenses := update_rows touched f (expenses s)\<rparr>)
      else Inl Rls_violation)"
| "exec caller (Delete_expense P) s =
     (let gone = (\<lambda>e. P e \<and> expense_creator caller e);
          ids = map e_id (filter gone (expenses s)) in
      Inr (s\<lparr>expenses := filter (\<lambda>e. \<not> gone e) (expenses s),
             expense_splits := filter (\<lambda>p. sp_expense_id p \<notin> set ids) (expense_splits s)\<rparr>))"
| "exec caller (Insert_split p) s =
     (if split_manage caller s p
      then checked (s\<lparr>expense_splits := expense_splits s @ [p]\<rparr>)
      else Inl Rls_violation)"
| "exec caller (Update_split P f) s =
     (let touched = (\<lambda>p. P p \<and> split_manage caller s p) in
      if list_all (\<lambda>p. touched p \<longrightarrow> split_manage caller s (f p)) (expense_splits s)
      then checked (s\<lparr>expense_splits := update_rows touched f (expense_splits s)\<rparr>)
      else Inl Rls_violation)"
| "exec caller (Delete_split P) s =
     Inr (s\<lparr>expense_splits :=
            filter (\<lambda>p. \<not> (P p \<and> split_manage caller s p)) (expense_splits s)\<rparr>)"
| "exec caller (Insert_settlement t) s =
     (if settlement_insert_check caller s t
      then checked (s\<lparr>settlements := settlements s @ [t]\<rparr>)
      else Inl Rls_violation)"
| "exec caller (Update_settlement P f) s = Inr s"
| "exec caller (Delete_settlement P) s = Inr s"

text \<open>
  A session of client statements, each by its own caller. A failed statement leaves the
  store as it was.
\<close>

fun run :: "(uuid option \<times> request) list \<Rightarrow> store \<Rightarrow> store" where
  "run [] s = s"
| "run ((caller, r) # rs) s =
     run rs (case exec caller r s of Inl err \<Rightarrow> s | Inr s' \<Rightarrow> s')"

subsection \<open>Policies that read their own table\<close>

text \<open>
  The tables that the subqueries of a table's \<^verbatim>\<open>SELECT\<close> policies read (a
  \<^verbatim>\<open>FOR ALL\<close> policy is a \<^verbatim>\<open>SELECT\<close> policy too): \<^verbatim>\<open>apartment_members\<close> for
  apartments, apartment_members, expenses and settlements; for expense_splits the
  subquery on \<^verbatim>\<open>expenses\<close> with its nested subquery on \<^verbatim>\<open>apartment_members\<close>, and
  the subquery on \<^verbatim>\<open>expenses\<close> of the \<^verbatim>\<open>FOR ALL\<close> policy.
\<close>

datatype relation = Apartments | Apartment_members | Expenses | Expense_splits | Settlements

fun select_policy_reads :: "relation \<Rightarrow> relation list" where
  "select_policy_reads Apartments = [Apartment_members]"
| "select_policy_reads Apartment_members = [Apartment_members]"
| "select_policy_reads Expenses = [Apartment_members]"
| "select_policy_reads Expense_splits = [Expenses, Apartment_members, Expenses]"
| "select_policy_reads Settlements = [Apartment_members]"

text \<open>
  A query that reads a table under row-level security has the table's \<^verbatim>\<open>SELECT\<close>
  policies expanded into it, and in turn the policies of every table their subqueries
  read. PostgreSQL raises 42P17 when it meets a table whose policies it is already
  expanding. \<open>inactive\<close> are the tables not being expanded.
\<close>

function policy_recursion :: "relation list \<Rightarrow> relation \<Rightarrow> bool" where
  "policy_recursion inactive r =
     (if r \<in> set inactive
      then list_ex (policy_recursion (removeAll r inactive)) (select_policy_reads r)
      else True)"
  by pat_completeness auto
termination
proof (relation "measure (\<lambda>(inactive, r). length inactive)")
  show "wf (measure (\<lambda>(inactive, r). length inactive))" by simp
next
  fix inactive :: "relation list" and r z :: relation
  assume "r \<in> set inactive"
  then have "length (removeAll r inactive) < length inactive"
    by (induction inactive) (auto simp: less_Suc_eq_le length_removeAll_less_eq)
  then show "((removeAll r inactive, z), (inactive, r)) \<in> measure (\<lambda>(inactive, r). length inactive)"
    by simp
qed

definition read_rejected :: "relation \<Rightarrow> bool" where
  "read_rejected r =
     policy_recursion [Apartments, Apartment_members, Expenses, Expense_splits, Settlements] r"

text \<open>
  A \<^verbatim>\<open>SELECT\<close> of the client on table \<open>r\<close>: the error, or the rows the policy
  conditions show.
\<close>

datatype query_error = Policy_recursion | Not_single_row

definition client_select :: "relation \<Rightarrow> 'r list \<Rightarrow> query_error + 'r list" where
  "client_select r visible = (if read_rejected r then Inl Policy_recursion else Inr visible)"

section \<open>Double precision numbers\<close>

text \<open>
  A double (a JavaScript number, a \<^verbatim>\<open>double precision\<close> value of PostgreSQL) is an
  IEEE 754 binary64 value: a finite one is a rational \<open>m * 2 ^ e\<close> with a significand
  of 53 bits. \<open>to_double\<close> rounds a rational to the nearest such value, a tie to the
  even significand, for magnitudes in the normal range (from \<open>2 ^ -1022\<close> up to
  \<open>2 ^ 1024\<close>), where every number of this development lies. \<open>exponent x\<close> is the
  \<open>e\<close> with \<open>2 ^ e \<le> x < 2 ^ (e + 1)\<close>.
\<close>

definition round_half_even :: "rat \<Rightarrow> int" where
  "round_half_even x =
     (let f = \<lfloor>x\<rfloor>; d = x - of_int f in
      if d < 1 / 2 then f
      else if 1 / 2 < d then f + 1
      else if even f then f else f + 1)"

definition pow2 :: "int \<Rightarrow> rat" where
  "pow2 k = (if 0 \<le> k then 2 ^ nat k else 1 / 2 ^ nat (- k))"

definition exponent :: "rat \<Rightarrow> int" where
  "exponent x = (if 1 \<le> x then bitlen \<lfloor>x\<rfloor> - 1 else - bitlen (\<lceil>1 / x\<rceil> - 1))"

definition to_double :: "rat \<Rightarrow> rat" where
  "to_double x =
     (if x = 0 then 0
      else
        (let ulp = pow2 (exponent \<bar>x\<bar> - 52) in
         sgn x * of_int (round_half_even (\<bar>x\<bar> / ulp)) * ulp))"

section \<open>Joining an apartment by code: \<^verbatim>\<open>JoinApartmentDialog.tsx\<close>\<close>

subsection \<open>The string operations used\<close>

text \<open>
  A JavaScript string is given by its code points. \<^verbatim>\<open>String.prototype.trim\<close> removes
  leading and trailing white space and line terminators: U+0009 to U+000D, U+0020,
  U+00A0, U+1680, U+2000 to U+200A, U+2028, U+2029, U+202F, U+205F, U+3000 and U+FEFF.
\<close>

type_synonym js_string = "nat list"

definition is_white_space :: "nat \<Rightarrow> bool" where
  "is_white_space c =
     (c \<in> {9, 10, 11, 12, 13, 32, 160, 5760, 8232, 8233, 8239, 8287, 12288, 65279} \<or>
      (8192 \<le> c \<and> c \<le> 8202))"

definition trim :: "js_string \<Rightarrow> js_string" where
  "trim str = rev (dropWhile is_white_space (rev (dropWhile is_white_space str)))"

text \<open>
  \<^verbatim>\<open>String.prototype.toUpperCase\<close> replaces every code point by its upper-case mapping
  in the Unicode character database, which may be several code points (U+00DF gives
  U+0053 U+0053). The database is not part of the source; the mapping is the parameter
  \<open>upper\<close>.
\<close>

definition toUpperCase :: "(nat \<Rightarrow> nat list) \<Rightarrow> js_string \<Rightarrow> js_string" where
  "toUpperCase upper str = concat (map upper str)"


text \<open>
  The Unicode mapping below U+0100, and no change above: \<^verbatim>\<open>a\<close>..\<^verbatim>\<open>z\<close> and U+00E0 to
  U+00FE (but U+00F7) move down by 32, U+00B5 gives U+039C, U+00DF gives U+0053 U+0053,
  U+00FF gives U+0178.
\<close>

definition latin1_upper :: "nat \<Rightarrow> nat list" where
  "latin1_upper c =
     (if 97 \<le> c \<and> c \<le> 122 then [c - 32]
      else if c = 181 then [924]
      else if c = 223 then [83, 83]
      else if 224 \<le> c \<and> c \<le> 254 \<and> c \<noteq> 247 then [c - 32]
      else if c = 255 then [376]
      else [c])"

text \<open>
  A \<^verbatim>\<open>TEXT\<close> value of the store is the list of its bytes in UTF-8; \<open>utf8\<close> is the
  stored form of a JavaScript string.
\<close>

definition utf8_of :: "nat \<Rightarrow> string" where
  "utf8_of c =
     (if c < 128 then [char_of c]
      else if c < 2048 then [char_of (192 + c div 64), char_of (128 + c mod 64)]
      else if c < 65536 then
        [char_of (224 + c div 4096), char_of (128 + c div 64 mod 64), char_of (128 + c mod 64)]
      else
        [char_of (240 + c div 262144), char_of (128 + c div 4096 mod 64),
         char_of (128 + c div 64 mod 64), char_of (128 + c mod 64)])"

definition utf8 :: "js_string \<Rightarrow> string" where
  "utf8 str = concat (map utf8_of str)"

subsection \<open>The dialog\<close>


text \<open>
  \<^verbatim>\<open>.single()\<close> yields the row when the query returns exactly one row, and an error
  with no data otherwise.
\<close>

fun single :: "'r list \<Rightarrow> query_error + 'r" where
  "single [r] = Inr r"
| "single rows = Inl Not_single_row"

text \<open>
  The row condition \<^verbatim>\<open>.eq('code', apartmentCode.trim().toUpperCase())\<close> of the first
  query of \<^verbatim>\<open>handleSubmit\<close>.
\<close>

definition code_filter :: "(nat \<Rightarrow> nat list) \<Rightarrow> js_string \<Rightarrow> apartment \<Rightarrow> bool" where
  "code_filter upper apartmentCode a =
     (a_code a = utf8 (toUpperCase upper (trim apartmentCode)))"

text \<open>
  The first query:
  \<^verbatim>\<open>from('apartments').select('id, name').eq('code', ...).single()\<close>, sent with the
  user's session, so under row-level security.
\<close>

definition find_apartment ::
  "(nat \<Rightarrow> nat list) \<Rightarrow> uuid option \<Rightarrow> js_string \<Rightarrow> store \<Rightarrow> query_error + apartment" where
  "find_apartment upper caller apartmentCode s =
     (case client_select Apartments (select_apartments caller s) of
        Inl err \<Rightarrow> Inl err
      | Inr rows \<Rightarrow> single (filter (code_filter upper apartmentCode) rows))"

text \<open>
  The second query:
  \<^verbatim>\<open>from('apartment_members').select('id').eq('apartment_id', apartment.id).eq('user_id', user.id).single()\<close>.
  Only its data is read: \<open>None\<close> is \<^verbatim>\<open>null\<close>, the data of a query that failed.
\<close>

definition existingMember :: "uuid option \<Rightarrow> uuid \<Rightarrow> uuid \<Rightarrow> store \<Rightarrow> apartment_member option" where
  "existingMember caller apartment_id user_id s =
     (case client_select Apartment_members (select_apartment_members caller s) of
        Inl err \<Rightarrow> None
      | Inr rows \<Rightarrow>
          (case single (filter (\<lambda>m. m_apartment_id m = apartment_id \<and> m_user_id m = user_id) rows) of
             Inl err \<Rightarrow> None
           | Inr member \<Rightarrow> Some member))"

text \<open>
  The two errors \<^verbatim>\<open>handleSubmit\<close> throws itself are
  \<^verbatim>\<open>'Apartment not found. Please check the code and try again.'\<close> (\<open>NotFound\<close>), thrown
  on any error of the first query, and
  \<^verbatim>\<open>'You are already a member of this apartment.'\<close> (\<open>AlreadyMember\<close>); a failed insert
  is rethrown (\<open>MemberError\<close>). The guard on the first line returns without any report
  (\<open>Ignored\<close>). The id of the new row is the column default \<^verbatim>\<open>gen_random_uuid()\<close>, given
  here as \<open>new_id\<close>.
\<close>

datatype join_error = NotFound | AlreadyMember | MemberError db_error

datatype outcome = Ignored | Joined | Failed join_error

definition handleSubmit ::
  "(nat \<Rightarrow> nat list) \<Rightarrow> uuid option \<Rightarrow> js_string \<Rightarrow> uuid \<Rightarrow> store \<Rightarrow> outcome \<times> store" where
  "handleSubmit upper user apartmentCode new_id s =
     (case user of
        None \<Rightarrow> (Ignored, s)
      | Some user_id \<Rightarrow>
          if trim apartmentCode = [] then (Ignored, s)
          else
            (case find_apartment upper user apartmentCode s of
               Inl apartmentError \<Rightarrow> (Failed NotFound, s)
             | Inr apartment \<Rightarrow>
                 (case existingMember user (a_id apartment) user_id s of
                    Some member \<Rightarrow> (Failed AlreadyMember, s)
                  | None \<Rightarrow>
                      (case exec user
                              (Insert_member \<lparr>m_id = new_id, m_apartment_id = a_id apartment,
                                 m_user_id = user_id\<rparr>) s of
                         Inl memberError \<Rightarrow> (Failed (MemberError memberError), s)
                       | Inr s' \<Rightarrow> (Joined, s')))))"

section \<open>Generating an apartment code: \<^verbatim>\<open>generate_apartment_code\<close>\<close>

text \<open>
  \<^verbatim>\<open>RANDOM()\<close> yields a double precision value \<open>r\<close> with \<open>0 \<le> r < 1\<close>; the draws of a
  call are given as a sequence \<open>rnd\<close>, six per round of the loop. The product
  \<^verbatim>\<open>RANDOM() * 25\<close> is a double precision product, the exact product rounded. The cast
  \<^verbatim>\<open>(x)::INT\<close> rounds to the nearest integer, a tie to the even one.
\<close>

definition cast_int :: "rat \<Rightarrow> int" where
  "cast_int x = round_half_even x"

definition times_double :: "rat \<Rightarrow> rat \<Rightarrow> rat" where
  "times_double a b = to_double (a * b)"

text \<open>\<^verbatim>\<open>CHR(n)\<close> for an ASCII code \<open>n\<close>; the function calls it with 65..90 only.\<close>
definition CHR_of :: "int \<Rightarrow> string" where
  "CHR_of n = [char_of (nat n)]"

text \<open>The text of an integer, as \<^verbatim>\<open>||\<close> converts its integer operand.\<close>
fun digits_of :: "nat \<Rightarrow> string" where
  "digits_of n =
     (if n < 10 then [char_of (48 + n)]
      else digits_of (n div 10) @ [char_of (48 + n mod 10)])"

definition text_of_int :: "int \<Rightarrow> string" where
  "text_of_int i = (if i < 0 then CHR ''-'' # digits_of (nat (- i)) else digits_of (nat i))"

text \<open>
  \<^verbatim>\<open>UPPER\<close> on ASCII text, which is all the function applies it to: \<^verbatim>\<open>a\<close>..\<^verbatim>\<open>z\<close>
  become \<^verbatim>\<open>A\<close>..\<^verbatim>\<open>Z\<close>.
\<close>
definition upper_char :: "char \<Rightarrow> char" where
  "upper_char c =
     (if 97 \<le> (of_char c :: nat) \<and> (of_char c :: nat) \<le> 122
      then char_of ((of_char c :: nat) - 32) else c)"

definition UPPER :: "string \<Rightarrow> string" where
  "UPPER str = map upper_char str"

text \<open>The candidate of round \<open>k\<close>: the expression assigned to \<^verbatim>\<open>code\<close>.\<close>
definition candidate_code :: "(nat \<Rightarrow> rat) \<Rightarrow> nat \<Rightarrow> string" where
  "candidate_code rnd k =
     UPPER (CHR_of (65 + cast_int (times_double (rnd (6 * k)) 25)) @
            CHR_of (65 + cast_int (times_double (rnd (6 * k + 1)) 25)) @
            text_of_int (cast_int (times_double (rnd (6 * k + 2)) 9)) @
            text_of_int (cast_int (times_double (rnd (6 * k + 3)) 9)) @
            CHR_of (65 + cast_int (times_double (rnd (6 * k + 4)) 25)) @
            text_of_int (cast_int (times_double (rnd (6 * k + 5)) 9)))"

text \<open>
  The check \<^verbatim>\<open>SELECT EXISTS(SELECT 1 FROM public.apartments WHERE code = code) INTO exists\<close>.
  The function declares a variable \<^verbatim>\<open>code\<close>, and \<^verbatim>\<open>apartments\<close> has a column
  \<^verbatim>\<open>code\<close>: in the query both sides of \<^verbatim>\<open>code = code\<close> are the same name. What the
  name means is fixed by \<^verbatim>\<open>plpgsql.variable_conflict\<close>, whose three settings are all
  modelled: \<^verbatim>\<open>error\<close> (the default) rejects the query as ambiguous, \<^verbatim>\<open>use_variable\<close>
  reads both sides as the variable, \<^verbatim>\<open>use_column\<close> reads both sides as the column.
  \<open>rows\<close> are the rows of \<^verbatim>\<open>apartments\<close> the query ranges over: the function runs
  with the rights of its caller, so for a client these are the rows its \<^verbatim>\<open>SELECT\<close>
  policy shows.
\<close>

datatype variable_conflict = Conflict_error | Use_variable | Use_column

datatype plpgsql_error = Ambiguous_column

definition code_exists ::
  "variable_conflict \<Rightarrow> apartment list \<Rightarrow> string \<Rightarrow> plpgsql_error + bool" where
  "code_exists vc rows code =
     (case vc of
        Conflict_error \<Rightarrow> Inl Ambiguous_column
      | Use_variable \<Rightarrow> Inr (list_ex (\<lambda>a. code = code) rows)
      | Use_column \<Rightarrow> Inr (list_ex (\<lambda>a. a_code a = a_code a) rows))"

text \<open>
  The \<^verbatim>\<open>LOOP\<close>, from round \<open>k\<close> on, with fuel: \<open>None\<close> says that the loop has not left
  within \<open>fuel\<close> rounds.
\<close>

fun code_loop ::
  "variable_conflict \<Rightarrow> (nat \<Rightarrow> rat) \<Rightarrow> apartment list \<Rightarrow> nat \<Rightarrow> nat \<Rightarrow>
     (plpgsql_error + string) option" where
  "code_loop vc rnd rows k 0 = None"
| "code_loop vc rnd rows k (Suc fuel) =
     (let code = candidate_code rnd k in
      case code_exists vc rows code of
        Inl err \<Rightarrow> Some (Inl err)
      | Inr exists \<Rightarrow>
          if \<not> exists then Some (Inr code)
          else code_loop vc rnd rows (Suc k) fuel)"

definition generate_apartment_code ::
  "variable_conflict \<Rightarrow> (nat \<Rightarrow> rat) \<Rightarrow> apartment list \<Rightarrow> nat \<Rightarrow>
     (plpgsql_error + string) option" where
  "generate_apartment_code vc rnd rows fuel = code_loop vc rnd rows 0 fuel"

text \<open>
  The format the generator is meant to produce: letter, letter, digit, digit, letter,
  digit, the letters upper case.
\<close>

definition is_upper_letter :: "char \<Rightarrow> bool" where
  "is_upper_letter c = (65 \<le> (of_char c :: nat) \<and> (of_char c :: nat) \<le> 90)"

definition is_digit :: "char \<Rightarrow> bool" where
  "is_digit c = (48 \<le> (of_char c :: nat) \<and> (of_char c :: nat) \<le> 57)"

fun code_pattern :: "string \<Rightarrow> bool" where
  "code_pattern [c1, c2, c3, c4, c5, c6] =
     (is_upper_letter c1 \<and> is_upper_letter c2 \<and> is_digit c3 \<and> is_digit c4 \<and>
      is_upper_letter c5 \<and> is_digit c6)"
| "code_pattern str = False"

section \<open>The dashboard: \<^verbatim>\<open>fetchApartments\<close> in \<^verbatim>\<open>Dashboard.tsx\<close>\<close>

subsection \<open>The total of the expenses\<close>

text \<open>\<^verbatim>\<open>a + b\<close> on JavaScript numbers: the exact sum, rounded.\<close>
definition js_add :: "rat \<Rightarrow> rat \<Rightarrow> rat" where
  "js_add a b = to_double (a + b)"

text \<open>
  \<^verbatim>\<open>Number(exp.amount)\<close>: the client receives a \<^verbatim>\<open>DECIMAL(10,2)\<close> column as a JSON
  number, which is read as the nearest double.
\<close>
definition Number_of :: "decimal_10_2 \<Rightarrow> rat" where
  "Number_of amount = to_double (of_int amount / 100)"

text \<open>
  \<^verbatim>\<open>expenses?.reduce((sum, exp) => sum + Number(exp.amount), 0) || 0\<close>, for the rows
  \<^verbatim>\<open>expenses\<close> that the query delivered.
\<close>
definition totalExpenses :: "expense list \<Rightarrow> rat" where
  "totalExpenses rows =
     (let total = foldl (\<lambda>sum exp. js_add sum (Number_of (e_amount exp))) 0 rows in
      if total = 0 then 0 else total)"

subsection \<open>The list shown\<close>

text \<open>The interface \<^verbatim>\<open>Apartment\<close> of the dashboard (without \<^verbatim>\<open>created_at\<close>).\<close>

record Apartment =
  v_id :: uuid
  v_name :: string
  v_code :: string
  member_count :: nat
  total_expenses :: rat
  user_balance :: rat

text \<open>
  The first query of \<^verbatim>\<open>fetchApartments\<close>: the membership rows of the user, each
  with its apartment (\<^verbatim>\<open>apartments!inner\<close>). It reads \<^verbatim>\<open>apartment_members\<close> and
  \<^verbatim>\<open>apartments\<close> with the user's session.
\<close>

definition membership_rows ::
  "uuid option \<Rightarrow> store \<Rightarrow> query_error + (apartment_member \<times> apartment) list" where
  "membership_rows user s =
     (if read_rejected Apartment_members \<or> read_rejected Apartments then Inl Policy_recursion
      else Inr (concat (map (\<lambda>item.
                  map (\<lambda>a. (item, a))
                    (filter (\<lambda>a. a_id a = m_apartment_id item) (select_apartments user s)))
                (filter (\<lambda>m. user = Some (m_user_id m)) (select_apartment_members user s)))))"

text \<open>
  The entries computed from the rows \<open>data\<close> of the first query
  (\<^verbatim>\<open>Promise.all(data.map(...))\<close>): per apartment the member count, the expense total
  and the balance of the user, which the source sets to the constant 0
  (\<^verbatim>\<open>const userBalance = 0; // TODO: Calculate actual balance\<close>). The two queries in
  it read only their data: a failed one gives \<^verbatim>\<open>null\<close>, and then
  \<^verbatim>\<open>memberCount || 0\<close> and \<^verbatim>\<open>expenses?.reduce(...) || 0\<close> are 0.
\<close>

definition apartmentData ::
  "uuid option \<Rightarrow> store \<Rightarrow> (apartment_member \<times> apartment) list \<Rightarrow> Apartment list" where
  "apartmentData user s data =
     map (\<lambda>(item, a).
       (let apartmentId = a_id a;
            memberCount =
              (case client_select Apartment_members (select_apartment_members user s) of
                 Inl err \<Rightarrow> 0
               | Inr rows \<Rightarrow> length (filter (\<lambda>m. m_apartment_id m = apartmentId) rows));
            total =
              (case client_select Expenses (select_expenses user s) of
                 Inl err \<Rightarrow> 0
               | Inr rows \<Rightarrow> totalExpenses (filter (\<lambda>e. e_apartment_id e = apartmentId) rows));
            userBalance = 0
        in \<lparr>v_id = apartmentId, v_name = a_name a, v_code = a_code a,
             member_count = memberCount, total_expenses = total,
             user_balance = userBalance\<rparr>)) data"

text \<open>
  \<^verbatim>\<open>fetchApartments\<close>: an error of the first query is thrown
  (\<^verbatim>\<open>if (error) throw error\<close>) and reported, and no list is set.
\<close>

definition fetchApartments :: "uuid option \<Rightarrow> store \<Rightarrow> query_error + Apartment list" where
  "fetchApartments user s =
     (case membership_rows user s of
        Inl error \<Rightarrow> Inl error
      | Inr data \<Rightarrow> Inr (apartmentData user s data))"

text \<open>The members of an apartment.\<close>

definition members_of :: "uuid \<Rightarrow> store \<Rightarrow> uuid list" where
  "members_of apt s =
     map m_user_id (filter (\<lambda>m. m_apartment_id m = apt) (apartment_members s))"

section \<open>The balance engine of the specification\<close>











section \<open>Scenarios\<close>

text \<open>
  Scenario A: users 1 (X) and 2 (Y) share apartment 10; one expense of 100.00 paid by
  X, split 50.00/50.00 between X and Y; no settlements.
\<close>

definition scenario_A :: store where
  "scenario_A =
     \<lparr>apartments = [\<lparr>a_id = 10, a_name = ''Flat'', a_code = ''AB12C3'', a_created_by = 1\<rparr>],
      apartment_members =
        [\<lparr>m_id = 20, m_apartment_id = 10, m_user_id = 1\<rparr>,
         \<lparr>m_id = 21, m_apartment_id = 10, m_user_id = 2\<rparr>],
      expenses =
        [\<lparr>e_id = 30, e_apartment_id = 10, e_title = ''Rent'', e_amount = 10000,
          e_paid_by = 1, e_created_by = 1\<rparr>],
      expense_splits =
        [\<lparr>sp_id = 40, sp_expense_id = 30, sp_user_id = 1, sp_amount = 5000\<rparr>,
         \<lparr>sp_id = 41, sp_expense_id = 30, sp_user_id = 2, sp_amount = 5000\<rparr>],
      settlements = []\<rparr>"

text \<open>The settlement of scenario B: 50.00 from Y to X.\<close>

definition settlement_B :: settlement where
  "settlement_B =
     \<lparr>st_id = 50, st_apartment_id = 10, st_from_user = 2, st_to_user = 1,
      st_amount = 5000, st_note = None\<rparr>"

text \<open>The client statements that build scenario A and then record the settlement.\<close>

definition scenario_B_requests :: "(uuid option \<times> request) list" where
  "scenario_B_requests =
     [(Some 1, Insert_apartment
         \<lparr>a_id = 10, a_name = ''Flat'', a_code = ''AB12C3'', a_created_by = 1\<rparr>),
      (Some 1, Insert_member \<lparr>m_id = 20, m_apartment_id = 10, m_user_id = 1\<rparr>),
      (Some 2, Insert_member \<lparr>m_id = 21, m_apartment_id = 10, m_user_id = 2\<rparr>),
      (Some 1, Insert_expense
         \<lparr>e_id = 30, e_apartment_id = 10, e_title = ''Rent'', e_amount = 10000,
          e_paid_by = 1, e_created_by = 1\<rparr>),
      (Some 1, Insert_split \<lparr>sp_id = 40, sp_expense_id = 30, sp_user_id = 1, sp_amount = 5000\<rparr>),
      (Some 1, Insert_split \<lparr>sp_id = 41, sp_expense_id = 30, sp_user_id = 2, sp_amount = 5000\<rparr>),
      (Some 2, Insert_settlement settlement_B)]"

text \<open>
  Scenario C: two codes are taken, and the draws give these two codes in the first two
  rounds and an unused one in the third.
\<close>

definition scenario_C_rows :: "apartment list" where
  "scenario_C_rows =
     [\<lparr>a_id = 10, a_name = ''Flat'', a_code = ''AA00A0'', a_created_by = 1\<rparr>,
      \<lparr>a_id = 11, a_name = ''Loft'', a_code = ''MM44M4'', a_created_by = 2\<rparr>]"

definition scenario_C_draws :: "nat \<Rightarrow> rat" where
  "scenario_C_draws i = (if i < 6 then 0 else if i < 12 then 1 / 2 else 999 / 1000)"





section \<open>Properties of the store\<close>

lemma checked_Inr: "checked s = Inr s' \<Longrightarrow> s' = s \<and> constraints_ok s"
  by (auto simp: checked_def split: if_splits)

lemma exec_settlements:
  assumes "exec caller r s = Inr s'"
  shows "settlements s' = settlements s \<or>
         (r = Insert_settlement (last (settlements s')) \<and>
          settlements s' = settlements s @ [last (settlements s')] \<and>
          settlement_insert_check caller s (last (settlements s')) \<and>
          0 < st_amount (last (settlements s')))"
  using assms
  by (cases r) (auto simp: Let_def constraints_ok_def dest!: checked_Inr split: if_splits)

lemma exec_apartments_length:
  assumes "exec caller r s = Inr s'"
  shows "length (apartments s) \<le> length (apartments s')"
  using assms
  by (cases r) (auto simp: Let_def update_rows_def dest!: checked_Inr split: if_splits)

lemma run_apartments_length: "length (apartments s) \<le> length (apartments (run rs s))"
proof (induction rs arbitrary: s)
  case Nil
  show ?case by simp
next
  case (Cons cr rs)
  obtain caller r where cr: "cr = (caller, r)" by (cases cr)
  show ?case
  proof (cases "exec caller r s")
    case (Inl err)
    with cr Cons.IH [of s] show ?thesis by simp
  next
    case (Inr s')
    from exec_apartments_length [OF Inr] Cons.IH [of s'] cr Inr show ?thesis by simp
  qed
qed

lemma run_settlements_append: "\<exists>added. settlements (run rs s) = settlements s @ added"
proof (induction rs arbitrary: s)
  case Nil
  show ?case by simp
next
  case (Cons cr rs)
  obtain caller r where cr: "cr = (caller, r)" by (cases cr)
  show ?case
  proof (cases "exec caller r s")
    case (Inl err)
    with cr Cons.IH [of s] show ?thesis by simp
  next
    case (Inr s')
    from Cons.IH [of s'] obtain added where a: "settlements (run rs s') = settlements s' @ added" ..
    from exec_settlements [OF Inr] obtain mid where "settlements s' = settlements s @ mid"
      by auto
    with a cr Inr show ?thesis by simp
  qed
qed

lemma exec_amounts_positive:
  assumes "exec caller r s = Inr s'" "\<forall>t \<in> set (settlements s). 0 < st_amount t"
  shows "\<forall>t \<in> set (settlements s'). 0 < st_amount t"
proof -
  from exec_settlements [OF assms(1)]
  consider "settlements s' = settlements s"
    | "settlements s' = settlements s @ [last (settlements s')]" "0 < st_amount (last (settlements s'))"
    by blast
  then show ?thesis
  proof cases
    case 1
    with assms(2) show ?thesis by simp
  next
    case 2
    show ?thesis
    proof
      fix t assume "t \<in> set (settlements s')"
      then have "t \<in> set (settlements s @ [last (settlements s')])" using 2(1) by simp
      then have "t \<in> set (settlements s) \<or> t = last (settlements s')" by auto
      with assms(2) 2(2) show "0 < st_amount t" by auto
    qed
  qed
qed

lemma run_amounts_positive:
  "\<forall>t \<in> set (settlements s). 0 < st_amount t \<Longrightarrow>
   \<forall>t \<in> set (settlements (run rs s)). 0 < st_amount t"
proof (induction rs arbitrary: s)
  case Nil
  then show ?case by simp
next
  case (Cons cr rs)
  obtain caller r where cr: "cr = (caller, r)" by (cases cr)
  show ?case
  proof (cases "exec caller r s")
    case (Inl err)
    with cr Cons.IH [OF Cons.prems] show ?thesis by simp
  next
    case (Inr s')
    from exec_amounts_positive [OF Inr Cons.prems] have "\<forall>t \<in> set (settlements s'). 0 < st_amount t" .
    from Cons.IH [OF this] cr Inr show ?thesis by simp
  qed
qed

lemma constraints_amounts_positive:
  "constraints_ok s \<Longrightarrow> \<forall>t \<in> set (settlements s). 0 < st_amount t"
  by (auto simp: constraints_ok_def list_all_iff)

text \<open>
  Claim C7. In every store reached by client statements from one that satisfies the
  declared constraints, every settlement row has a strictly positive amount; a session
  of client statements only appends to the settlements, so no existing row is changed
  or removed; an \<^verbatim>\<open>UPDATE\<close> or \<^verbatim>\<open>DELETE\<close> on settlements touches no row.
\<close>

theorem settlements_positive_immutable:
  assumes "constraints_ok s"
  shows "(\<forall>t \<in> set (settlements (run rs s)). 0 < st_amount t) \<and>
         (\<exists>added. settlements (run rs s) = settlements s @ added) \<and>
         exec caller (Update_settlement P f) s = Inr s \<and>
         exec caller (Delete_settlement Q) s = Inr s"
  using run_amounts_positive [OF constraints_amounts_positive [OF assms], of rs]
    run_settlements_append [of rs s]
  by simp



text \<open>
  The session of scenario B, followed by an attempt to delete and an attempt to rewrite
  every settlement: the settlement of 50.00 is still there, unchanged.
\<close>

theorem settlements_positive_immutable_witness:
  "constraints_ok empty_store \<and>
   settlements (run (scenario_B_requests @
       [(Some 2, Delete_settlement (\<lambda>t. True)),
        (Some 2, Update_settlement (\<lambda>t. True) (\<lambda>t. t\<lparr>st_amount := 1\<rparr>))]) empty_store)
     = [settlement_B] \<and>
   0 < st_amount settlement_B"
proof -
  have c: "constraints_ok empty_store" by code_simp
  have r: "settlements (run (scenario_B_requests @
       [(Some 2, Delete_settlement (\<lambda>t. True)),
        (Some 2, Update_settlement (\<lambda>t. True) (\<lambda>t. t\<lparr>st_amount := 1\<rparr>))]) empty_store)
     = [settlement_B]" by code_simp
  from settlements_positive_immutable [OF c, of "scenario_B_requests @
       [(Some 2, Delete_settlement (\<lambda>t. True)),
        (Some 2, Update_settlement (\<lambda>t. True) (\<lambda>t. t\<lparr>st_amount := 1\<rparr>))]"]
  have "\<forall>t \<in> set [settlement_B]. 0 < st_amount t" unfolding r by blast
  then show ?thesis using c r by simp
qed

text \<open>
  Claim C9. A \<^verbatim>\<open>DELETE\<close> on apartments removes no row (no policy admits it), and
  under every sequence of client statements the number of apartment rows never
  decreases.
\<close>

theorem apartments_never_deleted:
  "exec caller (Delete_apartment P) s = Inr s \<and>
   length (apartments s) \<le> length (apartments (run rs s))"
  using run_apartments_length [of s rs] by simp

theorem apartments_never_deleted_witness:
  "exec (Some 1) (Delete_apartment (\<lambda>a. True)) scenario_A = Inr scenario_A \<and>
   length (apartments scenario_A) = 1 \<and>
   1 \<le> length (apartments (run [(Some 1, Delete_apartment (\<lambda>a. a_id a = 10)),
                                  (Some 2, Delete_member (\<lambda>m. True))] scenario_A))"
proof -
  have l: "length (apartments scenario_A) = 1" by (simp add: scenario_A_def)
  from apartments_never_deleted [of "Some 1" "\<lambda>a. True" scenario_A
      "[(Some 1, Delete_apartment (\<lambda>a. a_id a = 10)), (Some 2, Delete_member (\<lambda>m. True))]"]
  show ?thesis unfolding l by simp
qed

lemma exec_new_settlement:
  assumes "exec caller r s = Inr s'" "t \<in> set (settlements s')" "t \<notin> set (settlements s)"
  shows "r = Insert_settlement t \<and> caller = Some (st_from_user t) \<and>
         st_from_user t \<in> set (members_of (st_apartment_id t) s)"
proof -
  from assms(2,3) have ne: "settlements s' \<noteq> settlements s" by auto
  with exec_settlements [OF assms(1)]
  have ins: "r = Insert_settlement (last (settlements s'))"
    and app: "settlements s' = settlements s @ [last (settlements s')]"
    and chk: "settlement_insert_check caller s (last (settlements s'))"
    by blast+
  from assms(2) have "t \<in> set (settlements s @ [last (settlements s')])" using app by simp
  with assms(3) have t: "last (settlements s') = t" by auto
  from chk t have "caller = Some (st_from_user t)"
    and "st_apartment_id t \<in> set (my_apartments caller s)"
    by (auto simp: settlement_insert_check_def)
  then have "st_from_user t \<in> set (members_of (st_apartment_id t) s)"
    by (auto simp: my_apartments_def members_of_def)
  with ins t \<open>caller = Some (st_from_user t)\<close> show ?thesis by simp
qed

lemma run_first_appearance:
  assumes "t \<in> set (settlements (run rs s))" "t \<notin> set (settlements s)"
  shows "\<exists>k < length rs.
           t \<notin> set (settlements (run (take k rs) s)) \<and>
           exec (fst (rs ! k)) (snd (rs ! k)) (run (take k rs) s) = Inr (run (take (Suc k) rs) s) \<and>
           t \<in> set (settlements (run (take (Suc k) rs) s))"
  using assms
proof (induction rs arbitrary: s)
  case Nil
  then show ?case by simp
next
  case (Cons cr rs)
  obtain caller r where cr: "cr = (caller, r)" by (cases cr)
  define s1 where "s1 = (case exec caller r s of Inl err \<Rightarrow> s | Inr s' \<Rightarrow> s')"
  have step: "\<And>qs. run (cr # qs) s = run qs s1" by (simp add: cr s1_def)
  show ?case
  proof (cases "t \<in> set (settlements s1)")
    case True
    with Cons.prems(2) have "s1 \<noteq> s" by auto
    then have "exec caller r s = Inr s1" by (auto simp: s1_def split: sum.splits)
    moreover have "run (take (Suc 0) (cr # rs)) s = s1" by (simp add: step)
    ultimately have "0 < length (cr # rs) \<and>
          t \<notin> set (settlements (run (take 0 (cr # rs)) s)) \<and>
          exec (fst ((cr # rs) ! 0)) (snd ((cr # rs) ! 0)) (run (take 0 (cr # rs)) s)
            = Inr (run (take (Suc 0) (cr # rs)) s) \<and>
          t \<in> set (settlements (run (take (Suc 0) (cr # rs)) s))"
      using True Cons.prems(2) cr by simp
    then show ?thesis by blast
  next
    case False
    from Cons.prems(1) have "t \<in> set (settlements (run rs s1))" by (simp add: step)
    from Cons.IH [OF this False] obtain k where k: "k < length rs"
      "t \<notin> set (settlements (run (take k rs) s1))"
      "exec (fst (rs ! k)) (snd (rs ! k)) (run (take k rs) s1) = Inr (run (take (Suc k) rs) s1)"
      "t \<in> set (settlements (run (take (Suc k) rs) s1))" by blast
    have "Suc k < length (cr # rs) \<and>
          t \<notin> set (settlements (run (take (Suc k) (cr # rs)) s)) \<and>
          exec (fst ((cr # rs) ! Suc k)) (snd ((cr # rs) ! Suc k)) (run (take (Suc k) (cr # rs)) s)
            = Inr (run (take (Suc (Suc k)) (cr # rs)) s) \<and>
          t \<in> set (settlements (run (take (Suc (Suc k)) (cr # rs)) s))"
      using k by (simp add: step)
    then show ?thesis by blast
  qed
qed

text \<open>
  Claim C8. A client statement that adds a settlement row is the \<^verbatim>\<open>INSERT\<close> of that
  row by the user recorded as its \<^verbatim>\<open>from_user\<close>, who is a member of the row's
  apartment in the store the statement runs on. Hence every settlement row of a store
  reached from the empty one first appears at an \<^verbatim>\<open>INSERT\<close> of it by its
  \<^verbatim>\<open>from_user\<close>, at a point of the session where that user is a member of its
  apartment.
\<close>

theorem settlement_inserted_by_member:
  "(exec caller r s = Inr s' \<and> t \<in> set (settlements s') \<and> t \<notin> set (settlements s) \<longrightarrow>
      r = Insert_settlement t \<and> caller = Some (st_from_user t) \<and>
      st_from_user t \<in> set (members_of (st_apartment_id t) s)) \<and>
   (t \<in> set (settlements (run rs empty_store)) \<longrightarrow>
      (\<exists>k < length rs.
         rs ! k = (Some (st_from_user t), Insert_settlement t) \<and>
         t \<notin> set (settlements (run (take k rs) empty_store)) \<and>
         t \<in> set (settlements (run (take (Suc k) rs) empty_store)) \<and>
         st_from_user t \<in> set (members_of (st_apartment_id t) (run (take k rs) empty_store))))"
proof (intro conjI impI)
  assume a: "exec caller r s = Inr s' \<and> t \<in> set (settlements s') \<and> t \<notin> set (settlements s)"
  from exec_new_settlement [of caller r s s' t] a
  show "r = Insert_settlement t" "caller = Some (st_from_user t)"
    "st_from_user t \<in> set (members_of (st_apartment_id t) s)" by blast+
next
  assume "t \<in> set (settlements (run rs empty_store))"
  moreover have "t \<notin> set (settlements empty_store)" by (simp add: empty_store_def)
  ultimately obtain k where k: "k < length rs"
    "t \<notin> set (settlements (run (take k rs) empty_store))"
    "exec (fst (rs ! k)) (snd (rs ! k)) (run (take k rs) empty_store)
       = Inr (run (take (Suc k) rs) empty_store)"
    "t \<in> set (settlements (run (take (Suc k) rs) empty_store))"
    using run_first_appearance by blast
  from exec_new_settlement [OF k(3) k(4) k(2)]
  have "snd (rs ! k) = Insert_settlement t" "fst (rs ! k) = Some (st_from_user t)"
    "st_from_user t \<in> set (members_of (st_apartment_id t) (run (take k rs) empty_store))"
    by blast+
  then have "rs ! k = (Some (st_from_user t), Insert_settlement t)"
    by (simp add: prod_eq_iff)
  with k \<open>st_from_user t \<in> set (members_of (st_apartment_id t) (run (take k rs) empty_store))\<close>
  show "\<exists>k < length rs.
         rs ! k = (Some (st_from_user t), Insert_settlement t) \<and>
         t \<notin> set (settlements (run (take k rs) empty_store)) \<and>
         t \<in> set (settlements (run (take (Suc k) rs) empty_store)) \<and>
         st_from_user t \<in> set (members_of (st_apartment_id t) (run (take k rs) empty_store))"
    by blast
qed

theorem settlement_inserted_by_member_witness:
  "exec (Some 2) (Insert_settlement settlement_B) scenario_A =
     Inr (scenario_A\<lparr>settlements := [settlement_B]\<rparr>) \<and>
   settlement_B \<in> set (settlements (scenario_A\<lparr>settlements := [settlement_B]\<rparr>)) \<and>
   settlement_B \<notin> set (settlements scenario_A) \<and>
   st_from_user settlement_B = 2 \<and>
   2 \<in> set (members_of (st_apartment_id settlement_B) scenario_A) \<and>
   exec (Some 1) (Insert_settlement settlement_B) scenario_A = Inl Rls_violation"
proof -
  have e: "exec (Some 2) (Insert_settlement settlement_B) scenario_A =
     Inr (scenario_A\<lparr>settlements := [settlement_B]\<rparr>)" by code_simp
  have i: "settlement_B \<in> set (settlements (scenario_A\<lparr>settlements := [settlement_B]\<rparr>))" by simp
  have n: "settlement_B \<notin> set (settlements scenario_A)" by (simp add: scenario_A_def)
  have f: "st_from_user settlement_B = 2" by (simp add: settlement_B_def)
  have x: "exec (Some 1) (Insert_settlement settlement_B) scenario_A = Inl Rls_violation"
    by code_simp
  from settlement_inserted_by_member [of "Some 2" "Insert_settlement settlement_B" scenario_A
      "scenario_A\<lparr>settlements := [settlement_B]\<rparr>" settlement_B "[]"] e i n
  have "st_from_user settlement_B \<in> set (members_of (st_apartment_id settlement_B) scenario_A)"
    by blast
  with e i n f x show ?thesis by simp
qed

section \<open>Properties of the client's queries\<close>

text \<open>
  Every table's \<^verbatim>\<open>SELECT\<close> policy leads to the policy of \<^verbatim>\<open>apartment_members\<close>, which
  reads its own table: every \<^verbatim>\<open>SELECT\<close> of a client is rejected.
\<close>

lemma read_rejected_all: "read_rejected r"
  by (cases r) (simp_all add: read_rejected_def)

declare policy_recursion.simps [simp del]

lemma client_select_rejected [simp]: "client_select r visible = Inl Policy_recursion"
  by (simp add: client_select_def read_rejected_all)


section \<open>Properties of joining by code\<close>

lemma find_apartment_rejected [simp]:
  "find_apartment upper caller apartmentCode s = Inl Policy_recursion"
  by (simp add: find_apartment_def)

text \<open>
  With every lookup rejected, \<^verbatim>\<open>handleSubmit\<close> either returns at its guard or reports
  "Apartment not found"; it neither reports a membership nor inserts one.
\<close>

lemma handleSubmit_outcomes:
  "handleSubmit upper user apartmentCode new_id s = (Ignored, s) \<or>
   handleSubmit upper user apartmentCode new_id s = (Failed NotFound, s)"
  by (simp add: handleSubmit_def split: option.splits)

lemma handleSubmit_submitted:
  "trim apartmentCode \<noteq> [] \<Longrightarrow>
   handleSubmit upper (Some user_id) apartmentCode new_id s = (Failed NotFound, s)"
  by (simp add: handleSubmit_def)

text \<open>
  Claim C4 on a member who joins again. User 1 is a member of apartment 10, whose code
  is AB12C3, and submits AB12C3: the lookup of the apartment is rejected, the rejection is
  reported as "Apartment not found", and the outcome is \<open>NotFound\<close>, where the claim has
  \<open>AlreadyMember\<close>. The store is unchanged.
\<close>

theorem rejoin_reports_not_found:
  "trim [65, 66, 49, 50, 67, 51] = [65, 66, 49, 50, 67, 51] \<and>
   toUpperCase latin1_upper [65, 66, 49, 50, 67, 51] = [65, 66, 49, 50, 67, 51] \<and>
   map a_code (apartments scenario_A) = [utf8 [65, 66, 49, 50, 67, 51]] \<and>
   map a_id (apartments scenario_A) = [10] \<and>
   members_of 10 scenario_A = [1, 2] \<and>
   handleSubmit latin1_upper (Some 1) [65, 66, 49, 50, 67, 51] 22 scenario_A
     = (Failed NotFound, scenario_A)"
proof -
  have t: "trim [65, 66, 49, 50, 67, 51] = [65, 66, 49, 50, 67, 51]"
    by (simp add: trim_def is_white_space_def)
  then have "trim [65, 66, 49, 50, 67, 51] \<noteq> []" by simp
  then have h: "handleSubmit latin1_upper (Some 1) [65, 66, 49, 50, 67, 51] 22 scenario_A
     = (Failed NotFound, scenario_A)" by (rule handleSubmit_submitted)
  have u: "toUpperCase latin1_upper [65, 66, 49, 50, 67, 51] = [65, 66, 49, 50, 67, 51]"
    by (simp add: toUpperCase_def latin1_upper_def)
  have "utf8 [65, 66, 49, 50, 67, 51] = ''AB12C3''" by code_simp
  then have c: "map a_code (apartments scenario_A) = [utf8 [65, 66, 49, 50, 67, 51]]"
    by (simp add: scenario_A_def)
  have i: "map a_id (apartments scenario_A) = [10]" by (simp add: scenario_A_def)
  have m: "members_of 10 scenario_A = [1, 2]" by code_simp
  from t u c i m h show ?thesis by simp
qed








lemma dropWhile_rev_dropWhile:
  "dropWhile P (rev (dropWhile P (rev (dropWhile P xs)))) = rev (dropWhile P (rev (dropWhile P xs)))"
proof -
  define u where "u = dropWhile P xs"
  define v where "v = dropWhile P (rev u)"
  have "dropWhile P (rev v) = rev v"
  proof (cases "v = []")
    case True
    then show ?thesis by simp
  next
    case False
    then obtain x where x: "x \<in> set (rev u)" "\<not> P x"
      unfolding v_def by auto
    then have "u \<noteq> []" by auto
    then have "\<not> P (hd u)" unfolding u_def by (rule hd_dropWhile)
    moreover have "last v = last (rev u)" unfolding v_def using x by (rule dropWhile_last)
    ultimately have "\<not> P (hd (rev v))" using False \<open>u \<noteq> []\<close> by (simp add: hd_rev last_rev)
    then show ?thesis by (simp add: dropWhile_eq_self_iff)
  qed
  then show ?thesis unfolding v_def u_def .
qed

lemma trim_idem [simp]: "trim (trim str) = trim str"
  by (simp add: trim_def dropWhile_rev_dropWhile)









section \<open>Properties of the rounding\<close>

text \<open>
  \<open>exponent\<close> is the binary exponent, and \<open>to_double\<close> is within half a unit in the
  last place of its argument: it rounds to a nearest value with a 53-bit significand.
\<close>

lemma pow2_pos: "0 < pow2 k"
  by (simp add: pow2_def)

lemma exponent_bounds:
  assumes "0 < x"
  shows "pow2 (exponent x) \<le> x \<and> x < pow2 (exponent x + 1)"
proof (cases "1 \<le> x")
  case True
  define n where "n = \<lfloor>x\<rfloor>"
  have n: "0 < n" "of_int n \<le> x" "x < of_int (n + 1)"
    using True unfolding n_def by (simp_all add: floor_less_iff) linarith
  define b where "b = bitlen n"
  from bitlen_bounds [OF n(1)] have bb: "2 ^ nat (b - 1) \<le> n" "n < 2 ^ nat b"
    unfolding b_def by simp_all
  have b1: "1 \<le> b" using n(1) bitlen_eq_zero_iff [of n] bitlen_nonneg [of n]
    unfolding b_def by linarith
  have e: "exponent x = b - 1" using True by (simp add: exponent_def n_def b_def)
  have "(2::rat) ^ nat (b - 1) \<le> of_int n"
    using bb(1) by (metis of_int_le_iff of_int_numeral of_int_power)
  also note n(2)
  finally have lo: "pow2 (b - 1) \<le> x" using b1 by (simp add: pow2_def)
  have "n + 1 \<le> 2 ^ nat b" using bb(2) by simp
  then have "(of_int (n + 1) :: rat) \<le> 2 ^ nat b"
    by (metis of_int_le_iff of_int_numeral of_int_power)
  with n(3) have "x < 2 ^ nat b" by (rule less_le_trans)
  then have hi: "x < pow2 b" using b1 by (simp add: pow2_def)
  from lo hi e show ?thesis by simp
next
  case False
  define y where "y = 1 / x"
  have y: "1 < y" using False assms by (simp add: y_def)
  define m where "m = \<lceil>y\<rceil> - 1"
  have m: "0 < m" "of_int m < y" "y \<le> of_int (m + 1)"
    using y unfolding m_def by (simp_all add: less_ceiling_iff) linarith+
  define c where "c = bitlen m"
  from bitlen_bounds [OF m(1)] have cb: "2 ^ nat (c - 1) \<le> m" "m < 2 ^ nat c"
    unfolding c_def by simp_all
  have c1: "1 \<le> c" using m(1) bitlen_eq_zero_iff [of m] bitlen_nonneg [of m]
    unfolding c_def by linarith
  have e: "exponent x = - c" using False by (simp add: exponent_def y_def m_def c_def)
  have "(2::rat) ^ nat (c - 1) \<le> of_int m"
    using cb(1) by (metis of_int_le_iff of_int_numeral of_int_power)
  then have ylo: "2 ^ nat (c - 1) < y" using m(2) by (rule le_less_trans)
  have "m + 1 \<le> 2 ^ nat c" using cb(2) by simp
  then have "(of_int (m + 1) :: rat) \<le> 2 ^ nat c"
    by (metis of_int_le_iff of_int_numeral of_int_power)
  with m(3) have yhi: "y \<le> 2 ^ nat c" by (rule order_trans)
  have x: "x = 1 / y" using assms by (simp add: y_def)
  have lo: "1 / 2 ^ nat c \<le> x"
    unfolding x using yhi y by (simp add: frac_le)
  have hi: "x < 1 / 2 ^ nat (c - 1)"
    unfolding x using ylo by (simp add: frac_less2)
  have p1: "pow2 (- c) = 1 / 2 ^ nat c" using c1 by (simp add: pow2_def)
  have p2: "pow2 (- c + 1) = 1 / 2 ^ nat (c - 1)"
  proof (cases "c = 1")
    case True
    then show ?thesis by (simp add: pow2_def)
  next
    case False
    with c1 have "- c + 1 < 0" "- (- c + 1) = c - 1" by simp_all
    then show ?thesis by (simp add: pow2_def)
  qed
  from lo hi e p1 p2 show ?thesis by simp
qed

lemma round_half_even_error: "\<bar>of_int (round_half_even q) - q\<bar> \<le> 1 / 2"
proof -
  define d where "d = q - of_int \<lfloor>q\<rfloor>"
  have d: "0 \<le> d" "d < 1" unfolding d_def by linarith+
  have q: "q = of_int \<lfloor>q\<rfloor> + d" by (simp add: d_def)
  have "round_half_even q = \<lfloor>q\<rfloor> \<or> round_half_even q = \<lfloor>q\<rfloor> + 1"
    by (auto simp: round_half_even_def Let_def)
  moreover have "round_half_even q = \<lfloor>q\<rfloor> \<Longrightarrow> d \<le> 1 / 2"
    unfolding round_half_even_def Let_def d_def [symmetric]
    by (auto split: if_splits)
  moreover have "round_half_even q = \<lfloor>q\<rfloor> + 1 \<Longrightarrow> 1 / 2 \<le> d"
    unfolding round_half_even_def Let_def d_def [symmetric]
    by (auto split: if_splits)
  ultimately show ?thesis
  proof (elim disjE)
    assume r: "round_half_even q = \<lfloor>q\<rfloor>" and "round_half_even q = \<lfloor>q\<rfloor> \<Longrightarrow> d \<le> 1 / 2"
    then have "d \<le> 1 / 2" by simp
    moreover have "of_int (round_half_even q) - q = - d" unfolding r d_def by simp
    ultimately show ?thesis using d by simp
  next
    assume r: "round_half_even q = \<lfloor>q\<rfloor> + 1" and "round_half_even q = \<lfloor>q\<rfloor> + 1 \<Longrightarrow> 1 / 2 \<le> d"
    then have "1 / 2 \<le> d" by simp
    moreover have "of_int (round_half_even q) - q = 1 - d" unfolding r d_def by simp
    ultimately show ?thesis using d by simp
  qed
qed

lemma to_double_nearest:
  "\<bar>to_double x - x\<bar> \<le> pow2 (exponent \<bar>x\<bar> - 52) / 2"
proof (cases "x = 0")
  case True
  then show ?thesis using pow2_pos [of "exponent \<bar>x\<bar> - 52"] by (simp add: to_double_def)
next
  case False
  define ulp where "ulp = pow2 (exponent \<bar>x\<bar> - 52)"
  have u: "0 < ulp" unfolding ulp_def by (rule pow2_pos)
  define m where "m = round_half_even (\<bar>x\<bar> / ulp)"
  have t: "to_double x = sgn x * of_int m * ulp"
    using False by (simp add: to_double_def Let_def ulp_def m_def)
  have "x = sgn x * (\<bar>x\<bar> / ulp) * ulp" using u by (simp add: mult_sgn_abs)
  then have "to_double x - x = sgn x * (of_int m - \<bar>x\<bar> / ulp) * ulp"
    unfolding t by (simp add: algebra_simps)
  then have "\<bar>to_double x - x\<bar> = \<bar>of_int m - \<bar>x\<bar> / ulp\<bar> * ulp"
    using False u by (simp add: abs_mult abs_sgn_eq)
  also have "\<dots> \<le> (1 / 2) * ulp"
    using round_half_even_error [of "\<bar>x\<bar> / ulp"] u unfolding m_def
    by (intro mult_right_mono) simp_all
  finally show ?thesis by (simp add: ulp_def)
qed


lemma pow2_powi: "pow2 k = 2 powi k"
  by (simp add: pow2_def power_int_def inverse_eq_divide power_one_over)


lemma pow2_shift: "pow2 (e - 52) = pow2 e / 2 ^ 52"
  unfolding pow2_powi by (simp add: power_int_diff)

lemma to_double_nonneg: "0 \<le> x \<Longrightarrow> 0 \<le> to_double x"
proof -
  assume x: "0 \<le> x"
  have "0 \<le> \<bar>x\<bar> / pow2 (exponent \<bar>x\<bar> - 52)" using pow2_pos [of "exponent \<bar>x\<bar> - 52"] by simp
  then have "0 \<le> \<lfloor>\<bar>x\<bar> / pow2 (exponent \<bar>x\<bar> - 52)\<rfloor>" by simp
  then have "0 \<le> round_half_even (\<bar>x\<bar> / pow2 (exponent \<bar>x\<bar> - 52))"
    by (auto simp: round_half_even_def Let_def)
  with x pow2_pos [of "exponent \<bar>x\<bar> - 52"] show ?thesis
    by (simp add: to_double_def Let_def sgn_if)
qed

lemma to_double_upper:
  assumes "0 \<le> x"
  shows "to_double x \<le> x + x / 2 ^ 53"
proof (cases "x = 0")
  case True
  then show ?thesis by (simp add: to_double_def)
next
  case False
  with assms have x: "0 < x" by simp
  have "to_double x - x \<le> \<bar>to_double x - x\<bar>" by simp
  also have "\<dots> \<le> pow2 (exponent \<bar>x\<bar> - 52) / 2" by (rule to_double_nearest)
  also have "\<dots> = pow2 (exponent x) / 2 ^ 53" using x by (simp add: pow2_shift)
  also have "\<dots> \<le> x / 2 ^ 53"
    using exponent_bounds [OF x] by (simp add: divide_right_mono)
  finally show ?thesis by simp
qed

lemma round_half_even_upper:
  assumes "y < of_int n + 1 / 2"
  shows "round_half_even y \<le> n"
proof -
  have f: "\<lfloor>y\<rfloor> \<le> n" using assms by (simp add: floor_le_iff)
  show ?thesis
  proof (cases "\<lfloor>y\<rfloor> = n")
    case True
    with assms have "y - of_int \<lfloor>y\<rfloor> < 1 / 2" by simp
    with True show ?thesis by (simp add: round_half_even_def Let_def)
  next
    case False
    with f have "\<lfloor>y\<rfloor> + 1 \<le> n" by simp
    then show ?thesis using f by (auto simp: round_half_even_def Let_def)
  qed
qed

lemma round_half_even_nonneg: "0 \<le> y \<Longrightarrow> 0 \<le> round_half_even y"
proof -
  assume "0 \<le> y"
  then have "0 \<le> \<lfloor>y\<rfloor>" by simp
  then show ?thesis by (auto simp: round_half_even_def Let_def)
qed

lemma cast_int_draw:
  assumes "0 \<le> r" "r < 1" "0 < n" "n \<le> 2 ^ 52"
  shows "0 \<le> cast_int (times_double r (of_int n)) \<and> cast_int (times_double r (of_int n)) \<le> n"
proof -
  define x where "x = r * of_int n"
  have x: "0 \<le> x" "x < of_int n" using assms by (simp_all add: x_def)
  have "x / 2 ^ 53 \<le> of_int n / 2 ^ 53" using x(2) by (simp add: divide_right_mono)
  also have "\<dots> \<le> 2 ^ 52 / 2 ^ 53"
  proof -
    have "(of_int n :: rat) \<le> of_int (2 ^ 52)" using assms(4) by (simp only: of_int_le_iff)
    then show ?thesis by (simp add: divide_right_mono)
  qed
  finally have "x / 2 ^ 53 \<le> 1 / 2" by simp
  with to_double_upper [OF x(1)] x(2) have "to_double x < of_int n + 1 / 2" by linarith
  then have "round_half_even (to_double x) \<le> n" by (rule round_half_even_upper)
  moreover have "0 \<le> round_half_even (to_double x)"
    using to_double_nonneg [OF x(1)] by (rule round_half_even_nonneg)
  ultimately show ?thesis by (simp add: cast_int_def times_double_def x_def)
qed

section \<open>Properties of code generation\<close>

declare digits_of.simps [simp del]

lemma letter_of_draw:
  assumes "0 \<le> r" "r < 1"
  shows "\<exists>c. UPPER (CHR_of (65 + cast_int (times_double r 25))) = [c] \<and> is_upper_letter c"
proof -
  from cast_int_draw [OF assms, of 25, simplified] obtain k where k: "cast_int (times_double r 25) = k" "0 \<le> k" "k \<le> 25"
    by simp
  then have "nat (65 + k) mod 256 = nat (65 + k)" "65 \<le> nat (65 + k)" "nat (65 + k) \<le> 90" by auto
  then show ?thesis using k
    by (simp add: UPPER_def CHR_of_def upper_char_def is_upper_letter_def)
qed

lemma digit_of_draw:
  assumes "0 \<le> r" "r < 1"
  shows "\<exists>c. UPPER (text_of_int (cast_int (times_double r 9))) = [c] \<and> is_digit c"
proof -
  from cast_int_draw [OF assms, of 9, simplified] obtain k where k: "cast_int (times_double r 9) = k" "0 \<le> k" "k \<le> 9"
    by simp
  then have "nat k < 10" "(48 + nat k) mod 256 = 48 + nat k" by auto
  then show ?thesis using k
    by (simp add: UPPER_def text_of_int_def digits_of.simps [of "nat k"] upper_char_def is_digit_def)
qed

lemma UPPER_append: "UPPER (xs @ ys) = UPPER xs @ UPPER ys"
  by (simp add: UPPER_def)

lemma candidate_code_pattern:
  assumes "\<forall>i. 0 \<le> rnd i \<and> rnd i < 1"
  shows "code_pattern (candidate_code rnd k)"
proof -
  from assms have r: "\<And>i. 0 \<le> rnd i" "\<And>i. rnd i < 1" by auto
  from letter_of_draw [OF r, of "6 * k"] obtain c1 where
    c1: "UPPER (CHR_of (65 + cast_int (times_double (rnd (6 * k)) 25))) = [c1]" "is_upper_letter c1" by blast
  from letter_of_draw [OF r, of "6 * k + 1"] obtain c2 where
    c2: "UPPER (CHR_of (65 + cast_int (times_double (rnd (6 * k + 1)) 25))) = [c2]" "is_upper_letter c2" by blast
  from digit_of_draw [OF r, of "6 * k + 2"] obtain c3 where
    c3: "UPPER (text_of_int (cast_int (times_double (rnd (6 * k + 2)) 9))) = [c3]" "is_digit c3" by blast
  from digit_of_draw [OF r, of "6 * k + 3"] obtain c4 where
    c4: "UPPER (text_of_int (cast_int (times_double (rnd (6 * k + 3)) 9))) = [c4]" "is_digit c4" by blast
  from letter_of_draw [OF r, of "6 * k + 4"] obtain c5 where
    c5: "UPPER (CHR_of (65 + cast_int (times_double (rnd (6 * k + 4)) 25))) = [c5]" "is_upper_letter c5" by blast
  from digit_of_draw [OF r, of "6 * k + 5"] obtain c6 where
    c6: "UPPER (text_of_int (cast_int (times_double (rnd (6 * k + 5)) 9))) = [c6]" "is_digit c6" by blast
  have "candidate_code rnd k = [c1, c2, c3, c4, c5, c6]"
    unfolding candidate_code_def UPPER_append c1(1) c2(1) c3(1) c4(1) c5(1) c6(1) by simp
  with c1 c2 c3 c4 c5 c6 show ?thesis by simp
qed

lemma code_loop_returns_candidate:
  "code_loop vc rnd rows k fuel = Some (Inr c) \<Longrightarrow> \<exists>j. c = candidate_code rnd j"
proof (induction fuel arbitrary: k)
  case 0
  then show ?case by simp
next
  case (Suc fuel)
  then show ?case
    by (auto simp: Let_def split: sum.splits if_splits)
qed

lemma code_loop_ambiguous:
  "code_loop Conflict_error rnd rows k (Suc fuel) = Some (Inl Ambiguous_column)"
  by (simp add: code_exists_def)

lemma code_loop_use_variable:
  "rows \<noteq> [] \<Longrightarrow> code_loop Use_variable rnd rows k fuel = None"
  by (induction fuel arbitrary: k) (simp_all add: code_exists_def list_ex_iff)

lemma code_loop_use_column:
  "rows \<noteq> [] \<Longrightarrow> code_loop Use_column rnd rows k fuel = None"
  by (induction fuel arbitrary: k) (simp_all add: code_exists_def list_ex_iff)

lemma code_loop_empty:
  "vc \<noteq> Conflict_error \<Longrightarrow> code_loop vc rnd [] k (Suc fuel) = Some (Inr (candidate_code rnd k))"
  by (cases vc) (simp_all add: code_exists_def)

text \<open>
  Claim C5. With draws in the range of \<^verbatim>\<open>RANDOM()\<close>, every code that
  \<^verbatim>\<open>generate_apartment_code\<close> returns has exactly six characters: upper-case letter,
  upper-case letter, digit, digit, upper-case letter, digit. On an empty table, with a
  setting that does not reject the check, the function does return: its first
  candidate, of this form.
\<close>

theorem generated_code_pattern:
  assumes "\<forall>i. 0 \<le> rnd i \<and> rnd i < 1"
  shows "(generate_apartment_code vc rnd rows fuel = Some (Inr code) \<longrightarrow> code_pattern code) \<and>
         (vc \<noteq> Conflict_error \<longrightarrow>
            generate_apartment_code vc rnd [] (Suc fuel) = Some (Inr (candidate_code rnd 0)) \<and>
            code_pattern (candidate_code rnd 0))"
proof (intro conjI impI)
  assume "generate_apartment_code vc rnd rows fuel = Some (Inr code)"
  then obtain j where "code = candidate_code rnd j"
    unfolding generate_apartment_code_def by (auto dest: code_loop_returns_candidate)
  with candidate_code_pattern [OF assms] show "code_pattern code" by simp
next
  assume "vc \<noteq> Conflict_error"
  then show "generate_apartment_code vc rnd [] (Suc fuel) = Some (Inr (candidate_code rnd 0))"
    unfolding generate_apartment_code_def by (rule code_loop_empty)
next
  show "code_pattern (candidate_code rnd 0)" using assms by (rule candidate_code_pattern)
qed

theorem generated_code_pattern_witness:
  "generate_apartment_code Use_column (\<lambda>i. 1 / 2) [] 1 = Some (Inr ''MM44M4'') \<and>
   code_pattern ''MM44M4''"
proof -
  have r: "\<forall>i::nat. 0 \<le> (1 / 2 :: rat) \<and> (1 / 2 :: rat) < 1" by simp
  have g: "generate_apartment_code Use_column (\<lambda>i. 1 / 2) [] 1 = Some (Inr ''MM44M4'')"
    by code_simp
  from generated_code_pattern [OF r, of Use_column "[]" 1 "''MM44M4''"] g
  show ?thesis by simp
qed

text \<open>
  Claim C3 on scenario C. The first two candidates are taken and the third is unused,
  yet the function returns no code: with \<^verbatim>\<open>variable_conflict = error\<close> the check
  raises in the first round; with the other two settings \<^verbatim>\<open>code = code\<close> holds for
  every row, the check reports a collision in every round, and the loop has not left
  after any number of rounds.
\<close>

theorem generate_code_scenario_C:
  "map (candidate_code scenario_C_draws) [0, 1, 2] = [''AA00A0'', ''MM44M4'', ''ZZ99Z9''] \<and>
   map a_code scenario_C_rows = [''AA00A0'', ''MM44M4''] \<and>
   (\<forall>fuel. generate_apartment_code Conflict_error scenario_C_draws scenario_C_rows (Suc fuel)
      = Some (Inl Ambiguous_column)) \<and>
   (\<forall>fuel. generate_apartment_code Use_variable scenario_C_draws scenario_C_rows fuel = None) \<and>
   (\<forall>fuel. generate_apartment_code Use_column scenario_C_draws scenario_C_rows fuel = None)"
proof -
  have c: "map (candidate_code scenario_C_draws) [0, 1, 2] = [''AA00A0'', ''MM44M4'', ''ZZ99Z9'']"
    by code_simp
  have r: "map a_code scenario_C_rows = [''AA00A0'', ''MM44M4'']"
    by (simp add: scenario_C_rows_def)
  have n: "scenario_C_rows \<noteq> []" by (simp add: scenario_C_rows_def)
  show ?thesis
    using c r code_loop_use_variable [OF n] code_loop_use_column [OF n]
    by (simp add: generate_apartment_code_def code_loop_ambiguous del: code_loop.simps)
qed

section \<open>Properties of the dashboard\<close>










lemma apartmentData_user_balance:
  "v \<in> set (apartmentData user s data) \<Longrightarrow> user_balance v = 0"
  by (auto simp: apartmentData_def Let_def)

lemma fetchApartments_rejected: "fetchApartments user s = Inl Policy_recursion"
  by (simp add: fetchApartments_def membership_rows_def read_rejected_all)

text \<open>
  Claim C1 on scenario A. For X and for Y the first query of \<^verbatim>\<open>fetchApartments\<close> is
  rejected and no list is shown; and from the membership rows of X and of Y the entry
  computed has the balance 0, where the claim has +50.00 and -50.00.
\<close>

theorem scenario_A_user_balance:
  "fetchApartments (Some 1) scenario_A = Inl Policy_recursion \<and>
   fetchApartments (Some 2) scenario_A = Inl Policy_recursion \<and>
   map user_balance (apartmentData (Some 1) scenario_A
       [(\<lparr>m_id = 20, m_apartment_id = 10, m_user_id = 1\<rparr>,
         \<lparr>a_id = 10, a_name = ''Flat'', a_code = ''AB12C3'', a_created_by = 1\<rparr>)]) = [0] \<and>
   map user_balance (apartmentData (Some 2) scenario_A
       [(\<lparr>m_id = 21, m_apartment_id = 10, m_user_id = 2\<rparr>,
         \<lparr>a_id = 10, a_name = ''Flat'', a_code = ''AB12C3'', a_created_by = 1\<rparr>)]) = [0]"
  by (simp add: fetchApartments_rejected apartmentData_def)

section \<open>Properties of the balance engine\<close>












end
